theory Spec2Isabelle
  imports Complex_Main
begin

section \<open>The world generate\_jwt.py runs in\<close>

text \<open>
  The script is eighteen lines of top-level Python. Everything it does beyond building
  a dictionary is an effect: it opens and reads one file, asks the clock twice, calls
  \<^verbatim>\<open>jwt.encode\<close> and prints. The model threads a \<open>world\<close> through these calls and
  returns exceptions as values.
\<close>

text \<open>What \<^verbatim>\<open>open(path, 'r').read()\<close> can find at a path.\<close>

datatype file_state =
    Absent
  | Unreadable
  | Directory
  | Undecodable
  | Text string

text \<open>
  The exceptions that can end the script. The first four are the built-in exceptions
  \<^verbatim>\<open>open\<close> and \<^verbatim>\<open>read\<close> raise; the script defines no exception class and catches nothing.
  The last three are the names the specification gives to the failures of the token
  library, whose code is not part of the repository.
\<close>

datatype error =
    FileNotFoundError
  | PermissionError
  | IsADirectoryError
  | UnicodeDecodeError
  | KeyLoadError
  | SerializationError
  | SigningError

text \<open>
  \<open>time_reads w k\<close> is the float the \<open>k\<close>-th call of \<^verbatim>\<open>time.time()\<close> returns (a finite
  float is a rational number, so the readings are taken in \<open>real\<close>); \<open>time_calls\<close> counts
  the calls made so far; \<open>stdout\<close> holds the lines printed so far.
\<close>

record world =
  fs :: "string \<Rightarrow> file_state"
  time_reads :: "nat \<Rightarrow> real"
  time_calls :: nat
  stdout :: "string list"

definition open_read :: "string \<Rightarrow> world \<Rightarrow> error + string" where
  "open_read path w =
     (case fs w path of
        Absent \<Rightarrow> Inl FileNotFoundError
      | Unreadable \<Rightarrow> Inl PermissionError
      | Directory \<Rightarrow> Inl IsADirectoryError
      | Undecodable \<Rightarrow> Inl UnicodeDecodeError
      | Text s \<Rightarrow> Inr s)"

definition time_time :: "world \<Rightarrow> real \<times> world" where
  "time_time w = (time_reads w (time_calls w), w\<lparr>time_calls := Suc (time_calls w)\<rparr>)"

text \<open>Python's \<^verbatim>\<open>int(x)\<close> on a float truncates towards zero.\<close>

definition py_int :: "real \<Rightarrow> int" where
  "py_int x = (if 0 \<le> x then \<lfloor>x\<rfloor> else \<lceil>x\<rceil>)"

definition print :: "string \<Rightarrow> world \<Rightarrow> world" where
  "print s w = w\<lparr>stdout := stdout w @ [s]\<rparr>"

section \<open>The payload\<close>

text \<open>
  The values of the dictionary literal are strings and integers. A Python dictionary
  keeps its keys in insertion order, and the serialised token depends on that order, so
  the payload is an association list.
\<close>

datatype py_value = PyStr string | PyInt int

type_synonym claims = "(string \<times> py_value) list"

definition private_key_path :: string where
  "private_key_path = ''/Users/Aditya/Desktop/PROCTORING/dev-keys/jwt-private.pem''"

text \<open>
  Lines 8 to 15. The values of a dictionary display are evaluated top to bottom, so the
  clock is read for \<^verbatim>\<open>"exp"\<close> (line 13) before it is read for \<^verbatim>\<open>"iat"\<close> (line 14):
  \<open>t_exp\<close> is the first reading and \<open>t_iat\<close> the second.
\<close>

definition payload :: "real \<Rightarrow> real \<Rightarrow> claims" where
  "payload t_exp t_iat =
     [(''user_id'', PyStr ''test-user-001''),
      (''exam_schedule_id'', PyStr ''exam-sched-456''),
      (''tenant_id'', PyStr ''tenant-789''),
      (''attempt_no'', PyInt 1),
      (''exp'', PyInt (py_int t_exp + 3600)),
      (''iat'', PyInt (py_int t_iat))]"

definition build_payload :: "world \<Rightarrow> claims \<times> world" where
  "build_payload w0 =
     (let (t_exp, w1) = time_time w0;
          (t_iat, w2) = time_time w1
      in (payload t_exp t_iat, w2))"

text \<open>Reading a claim back from a payload.\<close>

definition int_claim :: "claims \<Rightarrow> string \<Rightarrow> int option" where
  "int_claim p k = (case map_of p k of Some (PyInt n) \<Rightarrow> Some n | _ \<Rightarrow> None)"

definition str_claim :: "claims \<Rightarrow> string \<Rightarrow> string option" where
  "str_claim p k = (case map_of p k of Some (PyStr s) \<Rightarrow> Some s | _ \<Rightarrow> None)"

section \<open>The script\<close>

text \<open>
  \<^verbatim>\<open>jwt.encode\<close> belongs to a library outside the repository. The script is modelled for
  any encoder \<open>jwt_encode payload key algorithm\<close> that either raises or returns the token.
  An exception anywhere ends the script at that point: nothing after it runs.
\<close>

type_synonym encoder = "claims \<Rightarrow> string \<Rightarrow> string \<Rightarrow> error + string"

definition generate_jwt :: "encoder \<Rightarrow> world \<Rightarrow> (error + unit) \<times> world" where
  "generate_jwt jwt_encode w0 =
     (case open_read private_key_path w0 of
        Inl e \<Rightarrow> (Inl e, w0)
      | Inr private_key \<Rightarrow>
          (let (p, w2) = build_payload w0 in
           case jwt_encode p private_key ''RS256'' of
             Inl e \<Rightarrow> (Inl e, w2)
           | Inr token \<Rightarrow> (Inr (), print token w2)))"

section \<open>The token library\<close>

text \<open>
  The script's only call into the token library is
  \<^verbatim>\<open>jwt.encode(payload, private_key, algorithm="RS256")\<close>. The library's code is not in
  the repository; what it does is taken from section 4.1 of the specification: serialise a
  header naming the algorithm and the token type, base64url-encode header and claims,
  join them with a dot, sign that text with RSA-SHA256, base64url-encode the signature
  and append it after a second dot. A byte is a \<open>char\<close>, a byte string a \<open>string\<close>.
\<close>

definition byte :: "char \<Rightarrow> nat" where
  "byte c = of_char c"

subsection \<open>base64url\<close>

text \<open>
  Modelled from the spec: the base64url encoding of the three segments (the encoder of
  the token library is not in the repository). Three bytes become four characters of the
  URL-safe alphabet; a last group of one or two bytes becomes two or three characters,
  and no padding is written.
\<close>

definition b64url_alphabet :: string where
  "b64url_alphabet = ''ABCDEFGHIJKLMNOPQRSTUVWXYZabcdefghijklmnopqrstuvwxyz0123456789-_''"

definition b64_char :: "nat \<Rightarrow> char" where
  "b64_char n = b64url_alphabet ! n"

fun base64url_encode :: "string \<Rightarrow> string" where
  "base64url_encode [] = []"
| "base64url_encode [a] =
     [b64_char (byte a div 4), b64_char (byte a mod 4 * 16)]"
| "base64url_encode [a, b] =
     [b64_char (byte a div 4), b64_char (byte a mod 4 * 16 + byte b div 16),
      b64_char (byte b mod 16 * 4)]"
| "base64url_encode (a # b # c # rest) =
     [b64_char (byte a div 4), b64_char (byte a mod 4 * 16 + byte b div 16),
      b64_char (byte b mod 16 * 4 + byte c div 64), b64_char (byte c mod 64)]
     @ base64url_encode rest"

subsection \<open>Serialising claims\<close>

text \<open>
  Modelled from the spec: the serialisation of a flat claims set (strings and integers)
  to compact JSON text, which the token library does and the repository does not contain.
  A string is written between double quotes; the quote, the backslash and the control
  characters are escaped, printable ASCII is written as it is, and any other character
  as \<^verbatim>\<open>\u00XX\<close>. The strings of the model hold characters below 256. An integer is
  written in decimal. Members are separated by a comma, key and value by a colon, with no
  white space. Every value of type \<open>py_value\<close> can be serialised, so this step raises
  nothing: \<open>SerializationError\<close> is excluded by the type of the payload.
\<close>

definition quote :: char where
  "quote = CHR 0x22"

definition backslash :: char where
  "backslash = CHR 0x5C"

definition hex_digit :: "nat \<Rightarrow> char" where
  "hex_digit n = (if n < 10 then char_of (48 + n) else char_of (87 + n))"

definition escape_char :: "char \<Rightarrow> string" where
  "escape_char c =
     (if c = quote then [backslash, quote]
      else if c = backslash then [backslash, backslash]
      else if c = CHR 0x0A then [backslash, CHR ''n'']
      else if c = CHR 0x0D then [backslash, CHR ''r'']
      else if c = CHR 0x09 then [backslash, CHR ''t'']
      else if c = CHR 0x08 then [backslash, CHR ''b'']
      else if c = CHR 0x0C then [backslash, CHR ''f'']
      else if 32 \<le> byte c \<and> byte c \<le> 126 then [c]
      else [backslash, CHR ''u'', CHR ''0'', CHR ''0'',
            hex_digit (byte c div 16), hex_digit (byte c mod 16)])"

definition json_string :: "string \<Rightarrow> string" where
  "json_string s = quote # concat (map escape_char s) @ [quote]"

definition digit_char :: "nat \<Rightarrow> char" where
  "digit_char d = char_of (48 + d)"

fun decimal :: "nat \<Rightarrow> string" where
  "decimal n = (if n < 10 then [digit_char n] else decimal (n div 10) @ [digit_char (n mod 10)])"

definition json_int :: "int \<Rightarrow> string" where
  "json_int i = (if i < 0 then CHR ''-'' # decimal (nat (- i)) else decimal (nat i))"

fun json_value :: "py_value \<Rightarrow> string" where
  "json_value (PyStr s) = json_string s"
| "json_value (PyInt i) = json_int i"

definition json_item :: "string \<times> py_value \<Rightarrow> string" where
  "json_item kv = json_string (fst kv) @ '':'' @ json_value (snd kv)"

fun join :: "string \<Rightarrow> string list \<Rightarrow> string" where
  "join sep [] = []"
| "join sep [x] = x"
| "join sep (x # y # ys) = x @ sep @ join sep (y # ys)"

definition json_dumps :: "claims \<Rightarrow> string" where
  "json_dumps obj = ''{'' @ join '','' (map json_item obj) @ ''}''"

subsection \<open>Signing\<close>

text \<open>
  Modelled from the spec: the RSA-SHA256 signature over the signing input (the signer is
  the library's cryptographic backend, not in the repository). The private key is a
  modulus and a private exponent. Reading a key out of PEM text and the SHA-256 hash are
  not modelled: they are the two fields of \<open>crypto\<close>, fixed but arbitrary. The signature
  is the one of RSASSA-PKCS1-v1\_5: the digest, behind the identifier of SHA-256, is
  padded to the length \<open>k\<close> of the modulus in octets, read as a number, raised to the
  private exponent modulo the modulus and written back as \<open>k\<close> octets. A modulus too short
  for the padded digest is refused with \<open>SigningError\<close>.
\<close>

record rsa_private_key =
  modulus :: nat
  private_exponent :: nat

record crypto =
  load_pem_private_key :: "string \<Rightarrow> rsa_private_key option"
  sha256 :: "string \<Rightarrow> string"

fun octet_length :: "nat \<Rightarrow> nat" where
  "octet_length n = (if n = 0 then 0 else Suc (octet_length (n div 256)))"

fun i2osp :: "nat \<Rightarrow> nat \<Rightarrow> string" where
  "i2osp x 0 = []"
| "i2osp x (Suc l) = i2osp (x div 256) l @ [char_of (x mod 256)]"

definition os2ip :: "string \<Rightarrow> nat" where
  "os2ip octets = foldl (\<lambda>acc c. acc * 256 + byte c) 0 octets"

definition sha256_digest_info :: string where
  "sha256_digest_info =
     [CHR 0x30, CHR 0x31, CHR 0x30, CHR 0x0D, CHR 0x06, CHR 0x09, CHR 0x60, CHR 0x86,
      CHR 0x48, CHR 0x01, CHR 0x65, CHR 0x03, CHR 0x04, CHR 0x02, CHR 0x01, CHR 0x05,
      CHR 0x00, CHR 0x04, CHR 0x20]"

definition emsa_pkcs1_v15 :: "crypto \<Rightarrow> string \<Rightarrow> nat \<Rightarrow> error + string" where
  "emsa_pkcs1_v15 bk msg k =
     (let t = sha256_digest_info @ sha256 bk msg in
      if k < length t + 11 then Inl SigningError
      else Inr ([CHR 0x00, CHR 0x01] @ replicate (k - length t - 3) (CHR 0xFF)
                @ [CHR 0x00] @ t))"

definition rs256_sign :: "crypto \<Rightarrow> rsa_private_key \<Rightarrow> string \<Rightarrow> error + string" where
  "rs256_sign bk key msg =
     (let k = octet_length (modulus key) in
      case emsa_pkcs1_v15 bk msg k of
        Inl e \<Rightarrow> Inl e
      | Inr em \<Rightarrow> Inr (i2osp (os2ip em ^ private_exponent key mod modulus key) k))"

subsection \<open>Issuing a token\<close>

text \<open>
  Modelled from the spec: \<^verbatim>\<open>jwt.encode\<close>, the \<open>issue\<close> operation of section 4.1, whose
  code is not in the repository. Text that is not a PEM-encoded RSA key is refused with
  \<open>KeyLoadError\<close>, an algorithm other than RS256 with \<open>SigningError\<close>.
\<close>

definition jwt_header :: claims where
  "jwt_header = [(''alg'', PyStr ''RS256''), (''typ'', PyStr ''JWT'')]"

definition jwt_encode :: "crypto \<Rightarrow> encoder" where
  "jwt_encode bk claims_set key algorithm =
     (if algorithm \<noteq> ''RS256'' then Inl SigningError
      else case load_pem_private_key bk key of
        None \<Rightarrow> Inl KeyLoadError
      | Some rsa_key \<Rightarrow>
          (let signing_input = base64url_encode (json_dumps jwt_header) @ ''.''
                               @ base64url_encode (json_dumps claims_set) in
           case rs256_sign bk rsa_key signing_input of
             Inl e \<Rightarrow> Inl e
           | Inr signature \<Rightarrow> Inr (signing_input @ ''.'' @ base64url_encode signature)))"

section \<open>Reading a token back\<close>

text \<open>
  Neither the script nor the call it makes reads a token. The functions of this section
  are the readers against which the tokens are judged: splitting at the dots as
  Python's \<^verbatim>\<open>str.split\<close> does, decoding base64url, and parsing the compact JSON text of a
  flat object whose values are strings and integers.
\<close>

fun split_on :: "char \<Rightarrow> string \<Rightarrow> string list" where
  "split_on sep [] = [[]]"
| "split_on sep (c # cs) =
     (if c = sep then [] # split_on sep cs
      else (case split_on sep cs of [] \<Rightarrow> [[c]] | x # xs \<Rightarrow> (c # x) # xs))"

fun index_of :: "'a \<Rightarrow> 'a list \<Rightarrow> nat option" where
  "index_of x [] = None"
| "index_of x (y # ys) = (if x = y then Some 0 else map_option Suc (index_of x ys))"

definition b64_val :: "char \<Rightarrow> nat option" where
  "b64_val c = index_of c b64url_alphabet"

fun base64url_decode :: "string \<Rightarrow> string option" where
  "base64url_decode [] = Some []"
| "base64url_decode [w] = None"
| "base64url_decode [w, x] =
     (case (b64_val w, b64_val x) of
        (Some p, Some q) \<Rightarrow> Some [char_of (p * 4 + q div 16)]
      | _ \<Rightarrow> None)"
| "base64url_decode [w, x, y] =
     (case (b64_val w, b64_val x, b64_val y) of
        (Some p, Some q, Some r) \<Rightarrow>
          Some [char_of (p * 4 + q div 16), char_of (q mod 16 * 16 + r div 4)]
      | _ \<Rightarrow> None)"
| "base64url_decode (w # x # y # z # rest) =
     (case (b64_val w, b64_val x, b64_val y, b64_val z) of
        (Some p, Some q, Some r, Some s) \<Rightarrow>
          map_option
            (\<lambda>tl. [char_of (p * 4 + q div 16), char_of (q mod 16 * 16 + r div 4),
                    char_of (r mod 4 * 64 + s)] @ tl)
            (base64url_decode rest)
      | _ \<Rightarrow> None)"

definition hex_val :: "char \<Rightarrow> nat option" where
  "hex_val c =
     (if 48 \<le> byte c \<and> byte c \<le> 57 then Some (byte c - 48)
      else if 97 \<le> byte c \<and> byte c \<le> 102 then Some (byte c - 87)
      else if 65 \<le> byte c \<and> byte c \<le> 70 then Some (byte c - 55)
      else None)"

fun hex4 :: "string \<Rightarrow> nat option" where
  "hex4 [h1, h2, h3, h4] =
     (case hex_val h1 of None \<Rightarrow> None | Some a \<Rightarrow>
      case hex_val h2 of None \<Rightarrow> None | Some b \<Rightarrow>
      case hex_val h3 of None \<Rightarrow> None | Some c \<Rightarrow>
      case hex_val h4 of None \<Rightarrow> None | Some d \<Rightarrow>
        Some (((a * 16 + b) * 16 + c) * 16 + d))"
| "hex4 s = None"

definition unescape :: "char \<Rightarrow> char option" where
  "unescape e =
     (if e = quote then Some quote
      else if e = backslash then Some backslash
      else if e = CHR ''/'' then Some CHR ''/''
      else if e = CHR ''n'' then Some (CHR 0x0A)
      else if e = CHR ''r'' then Some (CHR 0x0D)
      else if e = CHR ''t'' then Some (CHR 0x09)
      else if e = CHR ''b'' then Some (CHR 0x08)
      else if e = CHR ''f'' then Some (CHR 0x0C)
      else None)"

definition cons_result :: "char \<Rightarrow> (string \<times> string) option \<Rightarrow> (string \<times> string) option" where
  "cons_result c r = map_option (\<lambda>sr. (c # fst sr, snd sr)) r"

text \<open>
  \<open>scan_string\<close> reads the inside of a string up to the closing quote and returns the
  string with what follows the quote. A code point of 256 or more has no character in
  the model and is refused.
\<close>

fun scan_string :: "string \<Rightarrow> (string \<times> string) option" where
  "scan_string [] = None"
| "scan_string (c # cs) =
     (if c = quote then Some ([], cs)
      else if c = backslash then
        (case cs of
           [] \<Rightarrow> None
         | e # cs1 \<Rightarrow>
             if e = CHR ''u'' then
               (case hex4 (take 4 cs1) of
                  None \<Rightarrow> None
                | Some n \<Rightarrow>
                    if n < 256 then cons_result (char_of n) (scan_string (drop 4 cs1))
                    else None)
             else
               (case unescape e of
                  None \<Rightarrow> None
                | Some x \<Rightarrow> cons_result x (scan_string cs1)))
      else if byte c < 32 then None
      else cons_result c (scan_string cs))"

definition parse_string :: "string \<Rightarrow> (string \<times> string) option" where
  "parse_string s =
     (case s of [] \<Rightarrow> None | c # cs \<Rightarrow> if c = quote then scan_string cs else None)"

definition is_digit :: "char \<Rightarrow> bool" where
  "is_digit c = (48 \<le> byte c \<and> byte c \<le> 57)"

fun scan_digits :: "nat \<Rightarrow> string \<Rightarrow> nat \<times> string" where
  "scan_digits acc [] = (acc, [])"
| "scan_digits acc (c # cs) =
     (if is_digit c then scan_digits (acc * 10 + (byte c - 48)) cs else (acc, c # cs))"

definition parse_nat :: "string \<Rightarrow> (nat \<times> string) option" where
  "parse_nat s =
     (case s of [] \<Rightarrow> None | c # cs \<Rightarrow> if is_digit c then Some (scan_digits 0 s) else None)"

definition parse_int :: "string \<Rightarrow> (int \<times> string) option" where
  "parse_int s =
     (case s of
        [] \<Rightarrow> None
      | c # cs \<Rightarrow>
          if c = CHR ''-'' then map_option (\<lambda>nr. (- int (fst nr), snd nr)) (parse_nat cs)
          else map_option (\<lambda>nr. (int (fst nr), snd nr)) (parse_nat s))"

definition parse_value :: "string \<Rightarrow> (py_value \<times> string) option" where
  "parse_value s =
     (case s of
        [] \<Rightarrow> None
      | c # cs \<Rightarrow>
          if c = quote then map_option (\<lambda>sr. (PyStr (fst sr), snd sr)) (parse_string s)
          else map_option (\<lambda>ir. (PyInt (fst ir), snd ir)) (parse_int s))"

definition parse_item :: "string \<Rightarrow> ((string \<times> py_value) \<times> string) option" where
  "parse_item s =
     (case parse_string s of
        None \<Rightarrow> None
      | Some (k, r) \<Rightarrow>
          (case r of
             [] \<Rightarrow> None
           | c # r1 \<Rightarrow>
               if c = CHR '':'' then map_option (\<lambda>vr. ((k, fst vr), snd vr)) (parse_value r1)
               else None))"

text \<open>
  The members of an object, up to the closing brace. The first argument bounds the
  number of members still to be read; \<open>json_loads\<close> starts it at the length of the text,
  which no text can exceed.
\<close>

fun parse_items :: "nat \<Rightarrow> string \<Rightarrow> claims option" where
  "parse_items 0 s = None"
| "parse_items (Suc n) s =
     (case parse_item s of
        None \<Rightarrow> None
      | Some (kv, r) \<Rightarrow>
          if r = ''}'' then Some [kv]
          else (case r of
                  [] \<Rightarrow> None
                | c # r1 \<Rightarrow>
                    if c = CHR '','' then map_option ((#) kv) (parse_items n r1) else None))"

definition json_loads :: "string \<Rightarrow> claims option" where
  "json_loads s =
     (if s = ''{}'' then Some []
      else (case s of
              [] \<Rightarrow> None
            | c # r \<Rightarrow> if c = CHR ''{'' then parse_items (length r) r else None))"

definition decode_segment :: "string \<Rightarrow> claims option" where
  "decode_segment seg =
     (case base64url_decode seg of None \<Rightarrow> None | Some text \<Rightarrow> json_loads text)"

text \<open>Text at which a number ends: the end of the input or a character that is no digit.\<close>

definition stops_number :: "string \<Rightarrow> bool" where
  "stops_number rest = (case rest of [] \<Rightarrow> True | c # cs \<Rightarrow> \<not> is_digit c)"

section \<open>Concrete runs\<close>

text \<open>
  Worlds on which the script is evaluated below. In \<open>w_tick\<close> the clock passes a full
  second between the two reads (1700000000.9, then 1700000001.1); in \<open>w_jump\<close> it is
  stepped forward by an hour between them; in \<open>w_back\<close> it is set back by five seconds
  between them (1700000005, then 1700000000). In all three the key file can be read. \<open>w_key st\<close> is a world whose key file is in
  state \<open>st\<close>, and \<open>reject_every_key\<close> an encoder that refuses whatever key it is given.
\<close>

definition w_key :: "file_state \<Rightarrow> world" where
  "w_key st = \<lparr>fs = (\<lambda>_. st),
      time_reads = (\<lambda>k. 1700000000 + real k / 1000),
      time_calls = 0, stdout = []\<rparr>"

definition w_tick :: world where
  "w_tick = \<lparr>fs = (\<lambda>_. Text ''test key''),
      time_reads = (\<lambda>k. if k = 0 then 17000000009 / 10 else 17000000011 / 10),
      time_calls = 0, stdout = []\<rparr>"

definition w_jump :: world where
  "w_jump = \<lparr>fs = (\<lambda>_. Text ''test key''),
      time_reads = (\<lambda>k. if k = 0 then 1700000000 else 1700003600),
      time_calls = 0, stdout = []\<rparr>"

definition w_back :: world where
  "w_back = \<lparr>fs = (\<lambda>_. Text ''test key''),
      time_reads = (\<lambda>k. if k = 0 then 1700000005 else 1700000000),
      time_calls = 0, stdout = []\<rparr>"


text \<open>
  A backend to issue tokens with: \<open>test_key\<close> is a 2048-bit RSA key, \<open>test_crypto\<close> reads it
  out of the text \<open>test key\<close> and nothing out of any other text, and hashes every message
  to thirty-two zero octets (a stand-in of the right length, not SHA-256).
  \<open>w_issue t0\<close> is a world that holds this key, with a clock that starts at \<open>t0\<close> and
  advances a millisecond per reading.
\<close>

definition test_key :: rsa_private_key where
  "test_key = \<lparr>modulus = 31319705272155842632806675605381939223565534521625388397366091328118791060821828897759801190438570130535204393203323756808453077059456017031168742755827868695187482189305159004248753093975828579890242485937989284838529866438931506735891144846650339724498937494587948792058947162020269341480213589671115212587833319836758732239350421150167354222426161293047108879323513977122254935729726494680260070297377118046192824744529077142622351938302020612167829198380014771727801923244807029287038462019284340931927333560009318169816719976372793898644906249203541913820433330285438571576869857504878815985478804844411780980913,
      private_exponent = 1791294120389057278920032535134323970672001886210689589807319334136888567041010750115725236120600163303351363612904671852420537626156556324490634116315273022544973516238153925417903693052218944471975289349107213653757754855980247087019164393670904245213939051950542301396683589182295509804187758073059676828078888829093014857727485598848622870815861614257424015417846119461336177184450652204751051418659403134303886212284333590644117190982698333362819199673529556957409497501938541315148208515164832679000142734244852601842593203310446756559758797661555241756678859763435281876321885798764834633497488131457148404705\<rparr>"

definition test_crypto :: crypto where
  "test_crypto = \<lparr>load_pem_private_key = (\<lambda>pem. if pem = ''test key'' then Some test_key else None),
      sha256 = (\<lambda>msg. replicate 32 (CHR 0x00))\<rparr>"


section \<open>Facts about the clock reads\<close>

lemma py_int_mono: "x \<le> y \<Longrightarrow> py_int x \<le> py_int y"
proof -
  assume xy: "x \<le> y"
  show ?thesis
  proof (cases "0 \<le> x")
    case True
    with xy have "0 \<le> y" by simp
    with True xy show ?thesis by (simp add: py_int_def floor_mono)
  next
    case False
    note xneg = this
    show ?thesis
    proof (cases "0 \<le> y")
      case True
      from xneg have "\<lceil>x\<rceil> \<le> 0" by (simp add: ceiling_le_iff)
      moreover from True have "0 \<le> \<lfloor>y\<rfloor>" by simp
      ultimately have "\<lceil>x\<rceil> \<le> \<lfloor>y\<rfloor>" by linarith
      with xneg True show ?thesis by (simp add: py_int_def)
    next
      case False
      with xneg xy show ?thesis by (simp add: py_int_def ceiling_mono)
    qed
  qed
qed

lemma int_claim_exp [simp]: "int_claim (payload a b) ''exp'' = Some (py_int a + 3600)"
  by (simp add: int_claim_def payload_def)

lemma int_claim_iat [simp]: "int_claim (payload a b) ''iat'' = Some (py_int b)"
  by (simp add: int_claim_def payload_def)

lemma build_payload_eq:
  "build_payload w =
     (payload (time_reads w (time_calls w)) (time_reads w (Suc (time_calls w))),
      w\<lparr>time_calls := Suc (Suc (time_calls w))\<rparr>)"
  by (simp add: build_payload_def time_time_def)


lemma generate_jwt_read:
  "fs w private_key_path = Text key \<Longrightarrow>
   generate_jwt enc w =
     (case enc (fst (build_payload w)) key ''RS256'' of
        Inl e \<Rightarrow> (Inl e, snd (build_payload w))
      | Inr token \<Rightarrow> (Inr (), print token (snd (build_payload w))))"
  by (simp add: generate_jwt_def open_read_def case_prod_unfold Let_def)

lemma stdout_build_payload [simp]: "stdout (snd (build_payload w)) = stdout w"
  by (simp add: build_payload_eq)

section \<open>The lifetime of a token\<close>

text \<open>
  Claim C9 as stated holds the bound for every generated token, because \<open>exp\<close> is read
  first. The order of the reads does not order the readings: \<^verbatim>\<open>time.time()\<close> is the wall
  clock, and in the run \<open>w_back\<close> it is set back between the two reads. The key file is
  read, the payload below is what \<^verbatim>\<open>jwt.encode\<close> is given, and \<open>exp - iat\<close> is 3605.
\<close>

theorem clock_set_back_gives_3605:
  "(\<forall>enc. generate_jwt enc w_back =
     (case enc (fst (build_payload w_back)) ''test key'' ''RS256'' of
        Inl e \<Rightarrow> (Inl e, snd (build_payload w_back))
      | Inr token \<Rightarrow> (Inr (), print token (snd (build_payload w_back))))) \<and>
   int_claim (fst (build_payload w_back)) ''exp'' = Some 1700003605 \<and>
   int_claim (fst (build_payload w_back)) ''iat'' = Some 1700000000 \<and>
   \<not> ((1700003605 :: int) - 1700000000 \<le> 3600)"
proof -
  have "fs w_back private_key_path = Text ''test key''"
    by (simp add: w_back_def)
  then have "\<forall>enc. generate_jwt enc w_back =
     (case enc (fst (build_payload w_back)) ''test key'' ''RS256'' of
        Inl e \<Rightarrow> (Inl e, snd (build_payload w_back))
      | Inr token \<Rightarrow> (Inr (), print token (snd (build_payload w_back))))"
    by (simp only: generate_jwt_read simp_thms)
  moreover have "int_claim (fst (build_payload w_back)) ''exp'' = Some 1700003605"
    and "int_claim (fst (build_payload w_back)) ''iat'' = Some 1700000000"
    by (simp_all add: w_back_def build_payload_eq py_int_def)
  ultimately show ?thesis by simp
qed

text \<open>
  Claim C9, amended. When the reading taken for \<open>exp\<close> (the first) is no later than the
  reading taken for \<open>iat\<close> (the second), \<open>exp - iat\<close> is at most 3600; and there is such a
  run in which it is less than 3600, because the clock passed a second boundary between
  the two reads.
\<close>

theorem exp_minus_iat_at_most_3600:
  "(time_reads w (time_calls w) \<le> time_reads w (Suc (time_calls w)) \<longrightarrow>
      (\<exists>e i. int_claim (fst (build_payload w)) ''exp'' = Some e \<and>
             int_claim (fst (build_payload w)) ''iat'' = Some i \<and> e - i \<le> 3600)) \<and>
   (\<exists>v. time_reads v (time_calls v) \<le> time_reads v (Suc (time_calls v)) \<and>
      (\<exists>e i. int_claim (fst (build_payload v)) ''exp'' = Some e \<and>
             int_claim (fst (build_payload v)) ''iat'' = Some i \<and> e - i < 3600))"
proof (intro conjI impI)
  assume "time_reads w (time_calls w) \<le> time_reads w (Suc (time_calls w))"
  then have "py_int (time_reads w (time_calls w)) \<le> py_int (time_reads w (Suc (time_calls w)))"
    by (rule py_int_mono)
  then show "\<exists>e i. int_claim (fst (build_payload w)) ''exp'' = Some e \<and>
             int_claim (fst (build_payload w)) ''iat'' = Some i \<and> e - i \<le> 3600"
    by (simp add: build_payload_eq)
next
  have "time_reads w_tick (time_calls w_tick) \<le> time_reads w_tick (Suc (time_calls w_tick))"
    by (simp add: w_tick_def)
  moreover have "int_claim (fst (build_payload w_tick)) ''exp'' = Some 1700003600"
    by (simp add: build_payload_eq w_tick_def py_int_def)
  moreover have "int_claim (fst (build_payload w_tick)) ''iat'' = Some 1700000001"
    by (simp add: build_payload_eq w_tick_def py_int_def)
  ultimately show "\<exists>v. time_reads v (time_calls v) \<le> time_reads v (Suc (time_calls v)) \<and>
      (\<exists>e i. int_claim (fst (build_payload v)) ''exp'' = Some e \<and>
             int_claim (fst (build_payload v)) ''iat'' = Some i \<and> e - i < 3600)"
    by (intro exI[of _ w_tick] conjI exI[of _ "1700003600"] exI[of _ "1700000001"]) simp_all
qed

theorem exp_minus_iat_at_most_3600_witness:
  "time_reads (w_key (Text ''test key'')) (time_calls (w_key (Text ''test key'')))
     \<le> time_reads (w_key (Text ''test key'')) (Suc (time_calls (w_key (Text ''test key'')))) \<and>
   int_claim (fst (build_payload (w_key (Text ''test key'')))) ''exp'' = Some 1700003600 \<and>
   int_claim (fst (build_payload (w_key (Text ''test key'')))) ''iat'' = Some 1700000000 \<and>
   (1700003600 :: int) - 1700000000 \<le> 3600"
  using exp_minus_iat_at_most_3600 [of "w_key (Text ''test key'')"]
  by (simp add: w_key_def build_payload_eq py_int_def)

text \<open>
  Claim C1 says \<open>exp - iat = 3600\<close> for every generated token. The script reads the clock
  once for each of the two claims; in the run \<open>w_tick\<close> the readings are 1700000000.9 and
  1700000001.1. The key file is read, the payload below is what \<^verbatim>\<open>jwt.encode\<close> is given,
  and the lifetime it carries is 3599 seconds.
\<close>

theorem lifetime_3599_when_second_ticks:
  "generate_jwt enc w_tick =
     (case enc (fst (build_payload w_tick)) ''test key'' ''RS256'' of
        Inl e \<Rightarrow> (Inl e, snd (build_payload w_tick))
      | Inr token \<Rightarrow> (Inr (), print token (snd (build_payload w_tick)))) \<and>
   int_claim (fst (build_payload w_tick)) ''exp'' = Some 1700003600 \<and>
   int_claim (fst (build_payload w_tick)) ''iat'' = Some 1700000001 \<and>
   (1700003600 :: int) - 1700000001 = 3599"
proof -
  have "fs w_tick private_key_path = Text ''test key''"
    by (simp add: w_tick_def)
  then have "generate_jwt enc w_tick =
     (case enc (fst (build_payload w_tick)) ''test key'' ''RS256'' of
        Inl e \<Rightarrow> (Inl e, snd (build_payload w_tick))
      | Inr token \<Rightarrow> (Inr (), print token (snd (build_payload w_tick))))"
    by (rule generate_jwt_read)
  moreover have "int_claim (fst (build_payload w_tick)) ''exp'' = Some 1700003600"
    and "int_claim (fst (build_payload w_tick)) ''iat'' = Some 1700000001"
    by (simp_all add: w_tick_def build_payload_eq py_int_def)
  ultimately show ?thesis by simp
qed

text \<open>
  Claim C5 says \<open>exp > iat\<close> in every generated token. In the run \<open>w_jump\<close> the clock is
  stepped from 1700000000 to 1700003600 between the two reads; the key file is read, and
  the payload \<^verbatim>\<open>jwt.encode\<close> is given carries \<open>exp = iat\<close>. The \<open>iat\<close> claim is the
  truncated second reading, the last one taken before \<^verbatim>\<open>jwt.encode\<close> is called.
\<close>

theorem exp_equals_iat_after_hour_jump:
  "generate_jwt enc w_jump =
     (case enc (fst (build_payload w_jump)) ''test key'' ''RS256'' of
        Inl e \<Rightarrow> (Inl e, snd (build_payload w_jump))
      | Inr token \<Rightarrow> (Inr (), print token (snd (build_payload w_jump)))) \<and>
   int_claim (fst (build_payload w_jump)) ''exp'' = Some 1700003600 \<and>
   int_claim (fst (build_payload w_jump)) ''iat'' = Some 1700003600 \<and>
   int_claim (fst (build_payload w_jump)) ''iat'' =
     Some (py_int (time_reads w_jump (Suc (time_calls w_jump))))"
proof -
  have "fs w_jump private_key_path = Text ''test key''"
    by (simp add: w_jump_def)
  then have "generate_jwt enc w_jump =
     (case enc (fst (build_payload w_jump)) ''test key'' ''RS256'' of
        Inl e \<Rightarrow> (Inl e, snd (build_payload w_jump))
      | Inr token \<Rightarrow> (Inr (), print token (snd (build_payload w_jump))))"
    by (rule generate_jwt_read)
  moreover have "int_claim (fst (build_payload w_jump)) ''exp'' = Some 1700003600"
    and "int_claim (fst (build_payload w_jump)) ''iat'' = Some 1700003600"
    and "int_claim (fst (build_payload w_jump)) ''iat'' =
      Some (py_int (time_reads w_jump (Suc (time_calls w_jump))))"
    by (simp_all add: w_jump_def build_payload_eq py_int_def)
  ultimately show ?thesis by simp
qed

section \<open>The fields of the payload\<close>

text \<open>
  Claim C7. The payload handed to \<^verbatim>\<open>jwt.encode\<close> has exactly the six keys \<open>user_id\<close>,
  \<open>exam_schedule_id\<close>, \<open>tenant_id\<close>, \<open>attempt_no\<close>, \<open>exp\<close> and \<open>iat\<close>, each once; the first
  three carry strings, \<open>attempt_no\<close> a positive integer, \<open>exp\<close> and \<open>iat\<close> integers.
\<close>

theorem payload_has_exactly_six_fields:
  "map fst (fst (build_payload w)) =
     [''user_id'', ''exam_schedule_id'', ''tenant_id'', ''attempt_no'', ''exp'', ''iat''] \<and>
   distinct (map fst (fst (build_payload w))) \<and>
   (\<exists>u e t. map_of (fst (build_payload w)) ''user_id'' = Some (PyStr u) \<and>
            map_of (fst (build_payload w)) ''exam_schedule_id'' = Some (PyStr e) \<and>
            map_of (fst (build_payload w)) ''tenant_id'' = Some (PyStr t)) \<and>
   (\<exists>n x i. map_of (fst (build_payload w)) ''attempt_no'' = Some (PyInt n) \<and> 0 < n \<and>
            map_of (fst (build_payload w)) ''exp'' = Some (PyInt x) \<and>
            map_of (fst (build_payload w)) ''iat'' = Some (PyInt i))"
  by (simp add: build_payload_eq payload_def)

text \<open>
  Claim C10. Whatever the world, the payload names the same user, exam schedule, tenant
  and attempt; two runs \<open>w\<close> and \<open>w'\<close> build payloads that are equal once \<open>exp\<close> and \<open>iat\<close>
  are left out.
\<close>

theorem payload_fixed_identity:
  "str_claim (fst (build_payload w)) ''user_id'' = Some ''test-user-001'' \<and>
   str_claim (fst (build_payload w)) ''exam_schedule_id'' = Some ''exam-sched-456'' \<and>
   str_claim (fst (build_payload w)) ''tenant_id'' = Some ''tenant-789'' \<and>
   int_claim (fst (build_payload w)) ''attempt_no'' = Some 1 \<and>
   filter (\<lambda>kv. fst kv \<noteq> ''exp'' \<and> fst kv \<noteq> ''iat'') (fst (build_payload w)) =
   filter (\<lambda>kv. fst kv \<noteq> ''exp'' \<and> fst kv \<noteq> ''iat'') (fst (build_payload w'))"
  by (simp add: build_payload_eq payload_def str_claim_def int_claim_def)

section \<open>A key that cannot be loaded\<close>




section \<open>The readers invert the serialisers\<close>

subsection \<open>base64url\<close>

lemma length_b64url_alphabet: "length b64url_alphabet = 64"
  by (simp add: b64url_alphabet_def)

lemma distinct_b64url_alphabet: "distinct b64url_alphabet"
  by (simp add: b64url_alphabet_def)

lemma index_of_nth: "distinct xs \<Longrightarrow> n < length xs \<Longrightarrow> index_of (xs ! n) xs = Some n"
proof (induction xs arbitrary: n)
  case Nil
  then show ?case by simp
next
  case (Cons a xs)
  show ?case
  proof (cases n)
    case 0
    then show ?thesis by simp
  next
    case (Suc m)
    with Cons.prems have "xs ! m \<in> set xs" by simp
    with Cons.prems have "xs ! m \<noteq> a" by auto
    with Cons Suc show ?thesis by simp
  qed
qed

lemma b64_val_char: "n < 64 \<Longrightarrow> b64_val (b64_char n) = Some n"
  by (simp add: b64_val_def b64_char_def index_of_nth distinct_b64url_alphabet
      length_b64url_alphabet)

lemma b64_char_in_alphabet: "n < 64 \<Longrightarrow> b64_char n \<in> set b64url_alphabet"
  by (simp add: b64_char_def length_b64url_alphabet)

lemma byte_less: "byte c < 256"
  by (simp add: byte_def)

lemma char_of_byte: "char_of (byte c) = c"
  by (simp add: byte_def)

lemma sextets:
  "byte a div 4 < 64" "byte a mod 4 * 16 < 64" "byte a mod 4 * 16 + byte b div 16 < 64"
  "byte b mod 16 * 4 < 64" "byte b mod 16 * 4 + byte c div 64 < 64" "byte c mod 64 < 64"
  using byte_less[of a] byte_less[of b] byte_less[of c] by simp_all

lemma regroup1: "char_of (byte a div 4 * 4 + byte a mod 4 * 16 div 16) = a"
proof -
  have "byte a div 4 * 4 + byte a mod 4 * 16 div 16 = byte a" by simp
  then show ?thesis by (simp only: char_of_byte)
qed

lemma regroup2:
  "char_of (byte a div 4 * 4 + (byte a mod 4 * 16 + byte b div 16) div 16) = a"
proof -
  have "byte b div 16 < 16" using byte_less[of b] by simp
  then have "(byte a mod 4 * 16 + byte b div 16) div 16 = byte a mod 4" by simp
  then have "byte a div 4 * 4 + (byte a mod 4 * 16 + byte b div 16) div 16 = byte a" by simp
  then show ?thesis by (simp only: char_of_byte)
qed

lemma regroup3:
  "char_of ((byte a mod 4 * 16 + byte b div 16) mod 16 * 16 + byte b mod 16 * 4 div 4) = b"
proof -
  have "byte b div 16 < 16" using byte_less[of b] by simp
  then have "(byte a mod 4 * 16 + byte b div 16) mod 16 = byte b div 16" by simp
  then have "(byte a mod 4 * 16 + byte b div 16) mod 16 * 16 + byte b mod 16 * 4 div 4 = byte b"
    by simp
  then show ?thesis by (simp only: char_of_byte)
qed

lemma regroup4:
  "char_of ((byte a mod 4 * 16 + byte b div 16) mod 16 * 16 + (byte b mod 16 * 4 + byte c div 64) div 4) = b"
proof -
  have "byte b div 16 < 16" using byte_less[of b] by simp
  then have 1: "(byte a mod 4 * 16 + byte b div 16) mod 16 = byte b div 16" by simp
  have "byte c div 64 < 4" using byte_less[of c] by simp
  then have 2: "(byte b mod 16 * 4 + byte c div 64) div 4 = byte b mod 16" by simp
  have "(byte a mod 4 * 16 + byte b div 16) mod 16 * 16 + (byte b mod 16 * 4 + byte c div 64) div 4 = byte b"
    unfolding 1 2 by simp
  then show ?thesis by (simp only: char_of_byte)
qed

lemma regroup5:
  "char_of ((byte b mod 16 * 4 + byte c div 64) mod 4 * 64 + byte c mod 64) = c"
proof -
  have "byte c div 64 < 4" using byte_less[of c] by simp
  then have "(byte b mod 16 * 4 + byte c div 64) mod 4 = byte c div 64" by simp
  then have "(byte b mod 16 * 4 + byte c div 64) mod 4 * 64 + byte c mod 64 = byte c" by simp
  then show ?thesis by (simp only: char_of_byte)
qed

lemma base64url_roundtrip: "base64url_decode (base64url_encode xs) = Some xs"
proof (induction xs rule: base64url_encode.induct)
  case 1
  show ?case by simp
next
  case (2 a)
  show ?case
    by (simp only: base64url_encode.simps base64url_decode.simps b64_val_char sextets
        prod.case option.case regroup1)
next
  case (3 a b)
  show ?case
    by (simp only: base64url_encode.simps base64url_decode.simps b64_val_char sextets
        prod.case option.case regroup2 regroup3)
next
  case (4 a b c rest)
  then show ?case
    by (simp only: base64url_encode.simps base64url_decode.simps b64_val_char sextets
        prod.case option.case regroup2 regroup4 regroup5 append.simps option.map)
qed

lemma base64url_encode_alphabet: "set (base64url_encode xs) \<subseteq> set b64url_alphabet"
  by (induction xs rule: base64url_encode.induct) (simp_all add: b64_char_in_alphabet sextets)

lemma base64url_encode_nonempty: "xs \<noteq> [] \<Longrightarrow> base64url_encode xs \<noteq> []"
  by (induction xs rule: base64url_encode.induct) simp_all

lemma dot_not_b64url: "CHR ''.'' \<notin> set b64url_alphabet"
  by (simp add: b64url_alphabet_def)

subsection \<open>JSON text\<close>

lemma hex_val_digit: "n < 16 \<Longrightarrow> hex_val (hex_digit n) = Some n"
  by (simp add: hex_digit_def hex_val_def byte_def)

lemma hex4_escape:
  "hex4 [CHR ''0'', CHR ''0'', hex_digit (byte c div 16), hex_digit (byte c mod 16)] = Some (byte c)"
proof -
  have "byte c div 16 < 16" using byte_less[of c] by simp
  moreover have "byte c mod 16 < 16" by simp
  moreover have "hex_val (CHR ''0'') = Some 0" by (simp add: hex_val_def byte_def)
  ultimately show ?thesis by (simp add: hex_val_digit)
qed

lemma scan_escape: "scan_string (escape_char c @ rest) = cons_result c (scan_string rest)"
proof -
  consider "c = quote" | "c = backslash" | "c = CHR 0x0A" | "c = CHR 0x0D" | "c = CHR 0x09"
    | "c = CHR 0x08" | "c = CHR 0x0C"
    | "c \<noteq> quote" "c \<noteq> backslash" "32 \<le> byte c" "byte c \<le> 126"
    | "c \<noteq> quote" "c \<noteq> backslash" "c \<noteq> CHR 0x0A" "c \<noteq> CHR 0x0D" "c \<noteq> CHR 0x09"
      "c \<noteq> CHR 0x08" "c \<noteq> CHR 0x0C" "\<not> (32 \<le> byte c \<and> byte c \<le> 126)"
    by blast
  then show ?thesis
  proof cases
    case 1
    then show ?thesis by (simp add: escape_char_def unescape_def quote_def backslash_def)
  next
    case 2
    then show ?thesis by (simp add: escape_char_def unescape_def quote_def backslash_def)
  next
    case 3
    then show ?thesis by (simp add: escape_char_def unescape_def quote_def backslash_def)
  next
    case 4
    then show ?thesis by (simp add: escape_char_def unescape_def quote_def backslash_def)
  next
    case 5
    then show ?thesis by (simp add: escape_char_def unescape_def quote_def backslash_def)
  next
    case 6
    then show ?thesis by (simp add: escape_char_def unescape_def quote_def backslash_def)
  next
    case 7
    then show ?thesis by (simp add: escape_char_def unescape_def quote_def backslash_def)
  next
    case 8
    then have "escape_char c = [c]"
      by (auto simp: escape_char_def byte_def)
    with 8 show ?thesis by simp
  next
    case 9
    then have "escape_char c = [backslash, CHR ''u'', CHR ''0'', CHR ''0'',
            hex_digit (byte c div 16), hex_digit (byte c mod 16)]"
      by (simp add: escape_char_def)
    then show ?thesis
      using byte_less[of c]
      by (simp add: hex4_escape char_of_byte quote_def backslash_def del: hex4.simps)
  qed
qed

lemma scan_string_escaped:
  "scan_string (concat (map escape_char s) @ quote # rest) = Some (s, rest)"
  by (induction s) (simp_all add: scan_escape cons_result_def)

lemma parse_string_json_string: "parse_string (json_string s @ rest) = Some (s, rest)"
  by (simp add: parse_string_def json_string_def scan_string_escaped)

lemma is_digit_digit_char: "d < 10 \<Longrightarrow> is_digit (digit_char d)"
  by (simp add: is_digit_def digit_char_def byte_def)

lemma byte_digit_char: "d < 10 \<Longrightarrow> byte (digit_char d) - 48 = d"
  by (simp add: digit_char_def byte_def)

lemma scan_digits_decimal:
  "scan_digits acc (decimal n @ rest) = scan_digits (acc * 10 ^ length (decimal n) + n) rest"
proof (induction n arbitrary: acc rest rule: decimal.induct)
  case (1 n)
  show ?case
  proof (cases "n < 10")
    case True
    then show ?thesis by (simp add: is_digit_digit_char byte_digit_char)
  next
    case False
    have d: "n mod 10 < 10" by simp
    have "scan_digits acc (decimal n @ rest)
        = scan_digits acc (decimal (n div 10) @ digit_char (n mod 10) # rest)"
      using False by simp
    also have "\<dots> = scan_digits (acc * 10 ^ length (decimal (n div 10)) + n div 10)
                          (digit_char (n mod 10) # rest)"
      using False by (rule "1.IH")
    also have "\<dots> = scan_digits ((acc * 10 ^ length (decimal (n div 10)) + n div 10) * 10 + n mod 10) rest"
      using d by (simp add: is_digit_digit_char byte_digit_char del: decimal.simps)
    also have "(acc * 10 ^ length (decimal (n div 10)) + n div 10) * 10 + n mod 10
        = acc * 10 ^ length (decimal n) + n"
      using False by (simp add: algebra_simps)
    finally show ?thesis .
  qed
qed

lemma decimal_starts_with_digit: "\<exists>d ds. decimal n = d # ds \<and> is_digit d"
proof (induction n rule: decimal.induct)
  case (1 n)
  show ?case
  proof (cases "n < 10")
    case True
    then show ?thesis by (simp add: is_digit_digit_char)
  next
    case False
    with "1.IH" obtain d ds where "decimal (n div 10) = d # ds" "is_digit d" by blast
    with False show ?thesis by simp
  qed
qed

lemma scan_digits_stop: "stops_number rest \<Longrightarrow> scan_digits acc rest = (acc, rest)"
  by (cases rest) (simp_all add: stops_number_def)

lemma parse_nat_decimal:
  assumes "stops_number rest"
  shows "parse_nat (decimal n @ rest) = Some (n, rest)"
proof -
  obtain d ds where dd: "decimal n = d # ds" "is_digit d"
    using decimal_starts_with_digit by blast
  have "scan_digits 0 (decimal n @ rest) = (n, rest)"
    using assms by (simp only: scan_digits_decimal scan_digits_stop) simp
  then have "scan_digits 0 (d # ds @ rest) = (n, rest)"
    by (simp only: dd append_Cons)
  with dd show ?thesis
    by (simp add: parse_nat_def del: scan_digits.simps decimal.simps)
qed

lemma minus_is_no_digit: "\<not> is_digit (CHR ''-'')" "\<not> is_digit quote"
  by (simp_all add: is_digit_def byte_def quote_def)

lemma parse_int_json_int:
  assumes "stops_number rest"
  shows "parse_int (json_int i @ rest) = Some (i, rest)"
proof (cases "i < 0")
  case True
  then show ?thesis
    using parse_nat_decimal[OF assms, of "nat (- i)"]
    by (simp add: parse_int_def json_int_def del: decimal.simps)
next
  case False
  obtain d ds where dd: "decimal (nat i) = d # ds" "is_digit d"
    using decimal_starts_with_digit by blast
  then have "d \<noteq> CHR ''-''" using minus_is_no_digit by auto
  with False dd show ?thesis
    using parse_nat_decimal[OF assms, of "nat i"]
    by (simp add: parse_int_def json_int_def del: decimal.simps)
qed

lemma json_int_no_quote: "\<exists>c cs. json_int i = c # cs \<and> c \<noteq> quote"
proof -
  obtain d ds where dd: "decimal (nat \<bar>i\<bar>) = d # ds" "is_digit d"
    using decimal_starts_with_digit by blast
  then have "d \<noteq> quote" using minus_is_no_digit by auto
  with dd show ?thesis
    by (cases "i < 0") (auto simp: json_int_def quote_def abs_if simp del: decimal.simps)
qed

lemma parse_value_json_value:
  assumes "stops_number rest"
  shows "parse_value (json_value v @ rest) = Some (v, rest)"
proof (cases v)
  case (PyStr s)
  have "parse_string (json_string s @ rest) = Some (s, rest)"
    by (rule parse_string_json_string)
  then show ?thesis using PyStr
    by (simp add: parse_value_def json_string_def)
next
  case (PyInt i)
  obtain c cs where cc: "json_int i = c # cs" "c \<noteq> quote"
    using json_int_no_quote by blast
  have "parse_int (json_int i @ rest) = Some (i, rest)"
    using assms by (rule parse_int_json_int)
  with cc PyInt show ?thesis
    by (simp add: parse_value_def)
qed

lemma parse_item_json_item:
  assumes "stops_number rest"
  shows "parse_item (json_item kv @ rest) = Some (kv, rest)"
proof -
  have "parse_string (json_string (fst kv) @ ('':'' @ json_value (snd kv) @ rest))
      = Some (fst kv, '':'' @ json_value (snd kv) @ rest)"
    by (rule parse_string_json_string)
  then show ?thesis
    using parse_value_json_value[OF assms, of "snd kv"]
    by (simp add: parse_item_def json_item_def)
qed

lemma stops_number_brace: "stops_number ''}''" "stops_number (CHR '','' # r)"
  by (simp_all add: stops_number_def is_digit_def byte_def)

lemma json_item_nonempty: "json_item kv \<noteq> []"
  by (simp add: json_item_def json_string_def)

lemma parse_items_join:
  "kvs \<noteq> [] \<Longrightarrow> length kvs \<le> n \<Longrightarrow>
   parse_items n (join '','' (map json_item kvs) @ ''}'') = Some kvs"
proof (induction kvs arbitrary: n)
  case Nil
  then show ?case by simp
next
  case (Cons kv kvs)
  from Cons.prems obtain m where n: "n = Suc m" "length kvs \<le> m"
    by (cases n) auto
  show ?case
  proof (cases kvs)
    case Nil
    have "parse_item (json_item kv @ ''}'') = Some (kv, ''}'')"
      using stops_number_brace(1) by (rule parse_item_json_item)
    with Nil n show ?thesis by simp
  next
    case (Cons kv' kvs')
    have "parse_item (json_item kv @ (CHR '','' # join '','' (map json_item kvs) @ ''}''))
        = Some (kv, CHR '','' # join '','' (map json_item kvs) @ ''}'')"
      using stops_number_brace(2) by (rule parse_item_json_item)
    moreover have "parse_items m (join '','' (map json_item kvs) @ ''}'') = Some kvs"
      using Cons n by (intro Cons.IH) simp_all
    ultimately show ?thesis using Cons n by simp
  qed
qed

lemma length_join: "\<forall>x \<in> set xs. x \<noteq> [] \<Longrightarrow> length xs \<le> length (join sep xs)"
proof (induction sep xs rule: join.induct)
  case (1 sep)
  show ?case by simp
next
  case (2 sep x)
  then have "0 < length x" by simp
  then show ?case by (simp add: Suc_le_eq)
next
  case (3 sep x y ys)
  then have "x \<noteq> []" and "length (y # ys) \<le> length (join sep (y # ys))" by simp_all
  then show ?case by (cases x) simp_all
qed

lemma json_loads_dumps: "json_loads (json_dumps obj) = Some obj"
proof (cases obj)
  case Nil
  then show ?thesis by (simp add: json_loads_def json_dumps_def)
next
  case (Cons kv kvs)
  let ?r = "join '','' (map json_item obj) @ ''}''"
  have ne: "\<forall>x \<in> set (map json_item obj). x \<noteq> []"
    by (simp add: json_item_nonempty)
  then have "length (map json_item obj) \<le> length (join '','' (map json_item obj))"
    by (rule length_join)
  then have len: "length obj \<le> length ?r" by simp
  obtain c cs where j: "json_item kv = c # cs"
    using json_item_nonempty[of kv] by (cases "json_item kv") auto
  have "join '','' (map json_item obj) \<noteq> []"
    using Cons j by (cases kvs) simp_all
  then have "?r \<noteq> ''}''" by simp
  moreover have "parse_items (length ?r) ?r = Some obj"
    using Cons len by (intro parse_items_join) simp_all
  ultimately show ?thesis
    by (simp add: json_loads_def json_dumps_def)
qed

subsection \<open>Segments and dots\<close>

lemma split_on_no_sep: "sep \<notin> set a \<Longrightarrow> split_on sep a = [a]"
  by (induction a) auto

lemma split_on_append: "sep \<notin> set a \<Longrightarrow> split_on sep (a @ sep # rest) = a # split_on sep rest"
  by (induction a) auto

lemma split_on_three:
  assumes "sep \<notin> set a" "sep \<notin> set b" "sep \<notin> set c"
  shows "split_on sep (a @ sep # b @ sep # c) = [a, b, c]"
  using assms by (simp add: split_on_append split_on_no_sep)

lemma count_list_absent: "x \<notin> set xs \<Longrightarrow> count_list xs x = 0"
  by (induction xs) auto

lemma count_three:
  assumes "sep \<notin> set a" "sep \<notin> set b" "sep \<notin> set c"
  shows "count_list (a @ sep # b @ sep # c) sep = 2"
  using assms by (simp add: count_list_absent)

lemma dot_not_in_segment: "CHR ''.'' \<notin> set (base64url_encode xs)"
  using base64url_encode_alphabet[of xs] dot_not_b64url by blast

lemma json_dumps_nonempty: "json_dumps obj \<noteq> []"
  by (simp add: json_dumps_def)

lemma decode_segment_encode: "decode_segment (base64url_encode (json_dumps obj)) = Some obj"
  by (simp add: decode_segment_def base64url_roundtrip json_loads_dumps)

subsection \<open>The signature\<close>

lemma length_i2osp: "length (i2osp x k) = k"
  by (induction x k rule: i2osp.induct) simp_all

lemma length_sha256_digest_info: "length sha256_digest_info = 19"
  by (simp add: sha256_digest_info_def)

lemma rs256_sign_succeeds:
  assumes "\<forall>m. length (sha256 bk m) = 32" and "62 \<le> octet_length (modulus key)"
  shows "\<exists>sig. rs256_sign bk key msg = Inr sig \<and> length sig = octet_length (modulus key)"
proof -
  from assms have "\<not> octet_length (modulus key) < length (sha256_digest_info @ sha256 bk msg) + 11"
    by (simp add: length_sha256_digest_info)
  then show ?thesis
    by (simp add: rs256_sign_def emsa_pkcs1_v15_def Let_def length_i2osp del: octet_length.simps)
qed

lemma jwt_encode_Inr:
  assumes "jwt_encode bk c pem alg = Inr token"
  shows "\<exists>key sig. alg = ''RS256'' \<and> load_pem_private_key bk pem = Some key \<and>
           rs256_sign bk key (base64url_encode (json_dumps jwt_header) @ ''.''
                              @ base64url_encode (json_dumps c)) = Inr sig \<and>
           token = base64url_encode (json_dumps jwt_header) @ ''.''
                   @ base64url_encode (json_dumps c) @ ''.'' @ base64url_encode sig"
  using assms
  by (auto simp: jwt_encode_def Let_def split: if_splits option.splits sum.splits)

lemma jwt_encode_valid_key:
  assumes "load_pem_private_key bk pem = Some key"
    and "rs256_sign bk key (base64url_encode (json_dumps jwt_header) @ ''.''
                              @ base64url_encode (json_dumps c)) = Inr sig"
  shows "jwt_encode bk c pem ''RS256'' =
           Inr (base64url_encode (json_dumps jwt_header) @ ''.''
                @ base64url_encode (json_dumps c) @ ''.'' @ base64url_encode sig)"
  using assms by (simp add: jwt_encode_def Let_def)

subsection \<open>Issued tokens\<close>

lemma octet_length_lower: "256 ^ j \<le> n \<Longrightarrow> j < octet_length n"
proof (induction j arbitrary: n)
  case 0
  then show ?case by simp
next
  case (Suc j)
  then have "256 ^ j \<le> n div 256" by (simp add: less_eq_div_iff_mult_less_eq mult.commute)
  then have "j < octet_length (n div 256)" by (rule Suc.IH)
  moreover have "(0::nat) < 256 ^ Suc j" by simp
  with Suc.prems have "n \<noteq> 0" by linarith
  ultimately show ?case by simp
qed

lemma token_segments:
  "split_on (CHR ''.'') (base64url_encode a @ ''.'' @ base64url_encode b @ ''.'' @ base64url_encode c)
     = [base64url_encode a, base64url_encode b, base64url_encode c]"
  "count_list (base64url_encode a @ ''.'' @ base64url_encode b @ ''.'' @ base64url_encode c)
     (CHR ''.'') = 2"
  using split_on_three[OF dot_not_in_segment dot_not_in_segment dot_not_in_segment, of a b c]
    count_three[OF dot_not_in_segment dot_not_in_segment dot_not_in_segment, of a b c]
  by simp_all

lemma jwt_encode_succeeds:
  assumes "load_pem_private_key bk pem = Some key"
    and "\<forall>m. length (sha256 bk m) = 32"
    and "62 \<le> octet_length (modulus key)"
  shows "\<exists>sig. rs256_sign bk key (base64url_encode (json_dumps jwt_header) @ ''.''
                              @ base64url_encode (json_dumps c)) = Inr sig \<and>
           length sig = octet_length (modulus key) \<and>
           jwt_encode bk c pem ''RS256'' =
             Inr (base64url_encode (json_dumps jwt_header) @ ''.''
                  @ base64url_encode (json_dumps c) @ ''.'' @ base64url_encode sig)"
proof -
  from rs256_sign_succeeds[OF assms(2,3)] obtain sig where
    s: "rs256_sign bk key (base64url_encode (json_dumps jwt_header) @ ''.''
                              @ base64url_encode (json_dumps c)) = Inr sig"
       "length sig = octet_length (modulus key)"
    by blast
  with jwt_encode_valid_key[OF assms(1) s(1)] show ?thesis by blast
qed



lemma test_key_valid:
  "load_pem_private_key test_crypto ''test key'' = Some test_key"
  "\<forall>m. length (sha256 test_crypto m) = 32"
  "62 \<le> octet_length (modulus test_key)"
proof -
  show "load_pem_private_key test_crypto ''test key'' = Some test_key"
    by (simp add: test_crypto_def)
  show "\<forall>m. length (sha256 test_crypto m) = 32"
    by (simp add: test_crypto_def)
  have "256 ^ 62 \<le> modulus test_key" by (simp add: test_key_def)
  then have "62 < octet_length (modulus test_key)" by (rule octet_length_lower)
  then show "62 \<le> octet_length (modulus test_key)" by simp
qed

lemma header_segment:
  "base64url_encode (json_dumps jwt_header) = ''eyJhbGciOiJSUzI1NiIsInR5cCI6IkpXVCJ9''"
  by (simp add: jwt_header_def json_dumps_def json_item_def json_string_def escape_char_def
      quote_def backslash_def byte_def b64_char_def b64url_alphabet_def)

lemma json_dumps_payload_example:
  "json_dumps (payload 1700000000 (1700000000 + 1 / 1000)) =
     ''{\"user_id\":\"test-user-001\",\"exam_schedule_id\":\"exam-sched-456\",\"tenant_id\":\"tenant-789\",\"attempt_no\":1,\"exp\":1700003600,\"iat\":1700000000}''"
  by (simp add: payload_def py_int_def json_dumps_def json_item_def json_string_def
      escape_char_def json_int_def digit_char_def char_of_def bit_0 quote_def backslash_def
      byte_def)

lemma payload_segment_example:
  "base64url_encode (json_dumps (payload 1700000000 (1700000000 + 1 / 1000))) =
     ''eyJ1c2VyX2lkIjoidGVzdC11c2VyLTAwMSIsImV4YW1fc2NoZWR1bGVfaWQiOiJleGFtLXNjaGVkLTQ1NiIsInRlbmFudF9pZCI6InRlbmFudC03ODkiLCJhdHRlbXB0X25vIjoxLCJleHAiOjE3MDAwMDM2MDAsImlhdCI6MTcwMDAwMDAwMH0''"
  unfolding json_dumps_payload_example
  by (simp add: byte_def b64_char_def b64url_alphabet_def)




section \<open>The shape of an issued token\<close>

text \<open>
  Claim C2. With a key the backend can read out of the PEM text, a modulus of at least 62
  octets (room for the padded SHA-256 digest; a 2048-bit key has 256) and a hash of 32
  octets, \<^verbatim>\<open>jwt.encode\<close> returns a token for every claims set. The token has exactly two
  dots; split at them it has three segments, none empty, all over the base64url
  alphabet. The first is the encoded header, which decodes to \<open>alg = RS256\<close> and
  \<open>typ = JWT\<close>; the second is the encoded claims; the third is the encoded RSA-SHA256
  signature of the first two joined by a dot.
\<close>

theorem issued_token_has_three_segments:
  assumes "load_pem_private_key bk pem = Some key"
    and "\<forall>m. length (sha256 bk m) = 32"
    and "62 \<le> octet_length (modulus key)"
  shows "\<exists>token h p s sig.
           jwt_encode bk c pem ''RS256'' = Inr token \<and>
           count_list token (CHR ''.'') = 2 \<and>
           split_on (CHR ''.'') token = [h, p, s] \<and>
           h \<noteq> [] \<and> p \<noteq> [] \<and> s \<noteq> [] \<and>
           set h \<subseteq> set b64url_alphabet \<and> set p \<subseteq> set b64url_alphabet \<and>
           set s \<subseteq> set b64url_alphabet \<and>
           decode_segment h = Some jwt_header \<and>
           str_claim jwt_header ''alg'' = Some ''RS256'' \<and>
           str_claim jwt_header ''typ'' = Some ''JWT'' \<and>
           h = base64url_encode (json_dumps jwt_header) \<and>
           p = base64url_encode (json_dumps c) \<and>
           rs256_sign bk key (h @ ''.'' @ p) = Inr sig \<and>
           s = base64url_encode sig"
proof -
  let ?h = "base64url_encode (json_dumps jwt_header)"
  let ?p = "base64url_encode (json_dumps c)"
  from jwt_encode_succeeds[OF assms, of c] obtain sig where
    sig: "rs256_sign bk key (?h @ ''.'' @ ?p) = Inr sig"
      "length sig = octet_length (modulus key)"
      "jwt_encode bk c pem ''RS256'' = Inr (?h @ ''.'' @ ?p @ ''.'' @ base64url_encode sig)"
    by blast
  let ?s = "base64url_encode sig"
  let ?token = "?h @ ''.'' @ ?p @ ''.'' @ ?s"
  from sig(2) assms(3) have "sig \<noteq> []" by auto
  then have s_ne: "?s \<noteq> []" by (rule base64url_encode_nonempty)
  have h_ne: "?h \<noteq> []" and p_ne: "?p \<noteq> []"
    by (simp_all add: base64url_encode_nonempty json_dumps_nonempty)
  have hdr: "str_claim jwt_header ''alg'' = Some ''RS256''"
    "str_claim jwt_header ''typ'' = Some ''JWT''"
    by (simp_all add: str_claim_def jwt_header_def)
  show ?thesis
    apply (rule exI[of _ ?token], rule exI[of _ ?h], rule exI[of _ ?p], rule exI[of _ ?s],
        rule exI[of _ sig])
    using sig(1,3) h_ne p_ne s_ne hdr
    by (simp only: token_segments base64url_encode_alphabet decode_segment_encode
        simp_thms)
qed

theorem issued_token_has_three_segments_witness:
  "load_pem_private_key test_crypto ''test key'' = Some test_key \<and>
   (\<forall>m. length (sha256 test_crypto m) = 32) \<and>
   62 \<le> octet_length (modulus test_key) \<and>
   (\<exists>sig. jwt_encode test_crypto (payload 1700000000 (1700000000 + 1 / 1000)) ''test key'' ''RS256''
        = Inr (''eyJhbGciOiJSUzI1NiIsInR5cCI6IkpXVCJ9'' @ ''.'' @
               ''eyJ1c2VyX2lkIjoidGVzdC11c2VyLTAwMSIsImV4YW1fc2NoZWR1bGVfaWQiOiJleGFtLXNjaGVkLTQ1NiIsInRlbmFudF9pZCI6InRlbmFudC03ODkiLCJhdHRlbXB0X25vIjoxLCJleHAiOjE3MDAwMDM2MDAsImlhdCI6MTcwMDAwMDAwMH0''
               @ ''.'' @ base64url_encode sig) \<and>
      base64url_encode sig \<noteq> [] \<and>
      rs256_sign test_crypto test_key
        (''eyJhbGciOiJSUzI1NiIsInR5cCI6IkpXVCJ9'' @ ''.'' @
         ''eyJ1c2VyX2lkIjoidGVzdC11c2VyLTAwMSIsImV4YW1fc2NoZWR1bGVfaWQiOiJleGFtLXNjaGVkLTQ1NiIsInRlbmFudF9pZCI6InRlbmFudC03ODkiLCJhdHRlbXB0X25vIjoxLCJleHAiOjE3MDAwMDM2MDAsImlhdCI6MTcwMDAwMDAwMH0'')
        = Inr sig)"
proof -
  let ?c = "payload 1700000000 (1700000000 + 1 / 1000)"
  from issued_token_has_three_segments[OF test_key_valid, of ?c]
  obtain token h p s sig where
    t: "jwt_encode test_crypto ?c ''test key'' ''RS256'' = Inr token"
      "split_on (CHR ''.'') token = [h, p, s]" "s \<noteq> []"
      "h = base64url_encode (json_dumps jwt_header)"
      "p = base64url_encode (json_dumps ?c)"
      "rs256_sign test_crypto test_key (h @ ''.'' @ p) = Inr sig"
      "s = base64url_encode sig"
    by blast
  from jwt_encode_Inr[OF t(1)] t(4,5,6) test_key_valid(1)
  have tok: "token = h @ ''.'' @ p @ ''.'' @ base64url_encode sig"
    by auto
  have a: "jwt_encode test_crypto ?c ''test key'' ''RS256''
       = Inr (base64url_encode (json_dumps jwt_header) @ ''.'' @
              base64url_encode (json_dumps ?c) @ ''.'' @ base64url_encode sig)"
    using t(1) tok t(4,5) by (simp del: base64url_encode.simps)
  have b: "base64url_encode sig \<noteq> []"
    using t(3,7) by simp
  have c: "rs256_sign test_crypto test_key
       (base64url_encode (json_dumps jwt_header) @ ''.'' @ base64url_encode (json_dumps ?c))
       = Inr sig"
    using t(4,5,6) by (simp del: base64url_encode.simps)
  show ?thesis
    by (intro conjI test_key_valid exI[of _ sig])
      (rule a[unfolded header_segment payload_segment_example] b
        c[unfolded header_segment payload_segment_example])+
qed

section \<open>Round trip through the payload segment\<close>



end
